theory Spec2Isabelle
  imports Complex_Main
begin

section \<open>Python string primitives used by the chunking engine\<close>

text \<open>
  Python clamps both bounds of a slice \<open>s[i:j]\<close> to the string: a negative bound counts
  from the end and is then clamped to 0, a bound past the end is clamped to the length.
\<close>

definition adjust_index :: "int \<Rightarrow> int \<Rightarrow> int" where
  "adjust_index n i = (if i < 0 then max 0 (i + n) else min i n)"

definition py_slice :: "string \<Rightarrow> int \<Rightarrow> int \<Rightarrow> string" where
  "py_slice s i j =
     (let n = int (length s); a = adjust_index n i; b = adjust_index n j
      in take (nat (b - a)) (drop (nat a) s))"

text \<open>\<open>s.rfind(c)\<close> for a one-character \<open>c\<close>: the highest index holding \<open>c\<close>, or -1.\<close>

fun rfind_from :: "char \<Rightarrow> string \<Rightarrow> int \<Rightarrow> int \<Rightarrow> int" where
  "rfind_from c [] i found = found"
| "rfind_from c (x # xs) i found = rfind_from c xs (i + 1) (if x = c then i else found)"

definition rfind :: "string \<Rightarrow> char \<Rightarrow> int" where
  "rfind s c = rfind_from c s 0 (- 1)"

section \<open>The chunking engine: \<open>PDFProcessor._split_text\<close>\<close>

text \<open>
  One pass of the loop body for the cursor \<open>start\<close>: the window's end and the chunk
  that is appended. The raw window is \<open>text[start:start + chunk_size]\<close>; when its right edge
  falls before the end of the text and the window holds a newline or a space, the window
  is cut at the last of them.
\<close>

definition window :: "int \<Rightarrow> string \<Rightarrow> int \<Rightarrow> int \<times> string" where
  "window chunk_size text start =
     (let end = start + chunk_size;
          chunk = py_slice text start end
      in if end < int (length text) then
           (let last_newline = rfind chunk (CHR 0x0A);
                last_space = rfind chunk (CHR '' '');
                break_point = max last_newline last_space
            in if break_point \<noteq> - 1
               then (start + break_point, py_slice text start (start + break_point))
               else (end, chunk))
         else (end, chunk))"

text \<open>
  The \<open>while start < text_len\<close> loop. Nothing in the source bounds the number of passes,
  so the loop is a partial function: \<open>None\<close> is the loop that never returns.
\<close>

partial_function (option) split_loop ::
  "int \<Rightarrow> int \<Rightarrow> string \<Rightarrow> int \<Rightarrow> string list \<Rightarrow> string list option" where
  "split_loop chunk_size chunk_overlap text start chunks =
     (if start < int (length text) then
        (case window chunk_size text start of
           (end, chunk) \<Rightarrow>
             split_loop chunk_size chunk_overlap text (end - chunk_overlap) (chunks @ [chunk]))
      else Some chunks)"

definition split_text :: "int \<Rightarrow> int \<Rightarrow> string \<Rightarrow> string list option" where
  "split_text chunk_size chunk_overlap text = split_loop chunk_size chunk_overlap text 0 []"

text \<open>The scenario string of the specification: 1500 times A, one space, 1500 times B.\<close>

definition scenario_text :: string where
  "scenario_text = replicate 1500 (CHR ''A'') @ [CHR '' ''] @ replicate 1500 (CHR ''B'')"

section \<open>The chunk model\<close>

text \<open>
  Metadata is a Python dict from strings to scalars. A dict literal is modelled as an
  association list in insertion order; \<open>d.get(k)\<close> is \<open>map_of d k\<close>, with \<open>PNone\<close> for
  Python's \<open>None\<close>.
\<close>

datatype pyval = PNone | PStr string | PInt int | PFloat real | PList "pyval list"

type_synonym pydict = "(string \<times> pyval) list"

type_synonym error = string

record chunk =
  content :: string
  metadata :: pydict

text \<open>\<open>d.get(k)\<close> and \<open>d.get(k, default)\<close>.\<close>

definition dict_get :: "pydict \<Rightarrow> string \<Rightarrow> pyval" where
  "dict_get d k = (case map_of d k of None \<Rightarrow> PNone | Some v \<Rightarrow> v)"

definition dict_get_default :: "pydict \<Rightarrow> string \<Rightarrow> pyval \<Rightarrow> pyval" where
  "dict_get_default d k dflt = (case map_of d k of None \<Rightarrow> dflt | Some v \<Rightarrow> v)"

text \<open>Python's truth value of a scalar, as \<open>not x\<close> reads it.\<close>

fun truthy :: "pyval \<Rightarrow> bool" where
  "truthy PNone = False"
| "truthy (PStr s) = (s \<noteq> [])"
| "truthy (PInt i) = (i \<noteq> 0)"
| "truthy (PFloat r) = (r \<noteq> 0)"
| "truthy (PList vs) = (vs \<noteq> [])"

text \<open>
  \<open>str.strip()\<close>: whitespace is removed at both ends. On the code points below 256 the
  characters Python counts as whitespace are 9 to 13, 28 to 32, 133 and 160.
\<close>

definition is_space :: "char \<Rightarrow> bool" where
  "is_space c = (let n = (of_char c :: nat)
                 in (9 \<le> n \<and> n \<le> 13) \<or> (28 \<le> n \<and> n \<le> 32) \<or> n = 133 \<or> n = 160)"

definition strip :: "string \<Rightarrow> string" where
  "strip s = rev (dropWhile is_space (rev (dropWhile is_space s)))"

subsection \<open>Validity of a chunk: \<open>BaseChunk.__len__\<close> and \<open>BaseChunker._validate_chunk\<close>\<close>

definition chunk_len :: "chunk \<Rightarrow> int" where
  "chunk_len c = int (length (strip (content c)))"

definition default_min_chunk_size :: int where
  "default_min_chunk_size = 10"

definition validate_chunk :: "int \<Rightarrow> chunk \<Rightarrow> bool" where
  "validate_chunk min_chunk_size c = (chunk_len c \<ge> min_chunk_size)"

section \<open>Content extractors\<close>

text \<open>
  A raised exception is the left summand of the result, carrying \<open>str(e)\<close>.
  \<open>Path(file_path).name\<close> is a library function from paths to file names; the extractors
  take it as the parameter \<open>path_name\<close>.
\<close>

subsection \<open>Text documents: \<open>PDFProcessor.process\<close>\<close>

definition detect_language :: "string \<Rightarrow> string" where
  "detect_language text = ''en''"

text \<open>The inner loop \<open>for j, chunk_text in enumerate(text_chunks)\<close> of page \<open>i\<close>.\<close>

definition page_chunks :: "string \<Rightarrow> nat \<Rightarrow> string list \<Rightarrow> chunk list" where
  "page_chunks source i text_chunks =
     map (\<lambda>(j, chunk_text).
            \<lparr>content = chunk_text,
             metadata = [(''document_type'', PStr ''pdf''),
                         (''page_number'', PInt (int i + 1)),
                         (''chunk_index'', PInt (int j)),
                         (''source_file'', PStr source),
                         (''language'', PStr (detect_language chunk_text))]\<rparr>)
         (enumerate 0 text_chunks)"

text \<open>
  The loop over the pages, from page index \<open>i\<close>. A page is the result of
  \<open>page.extract_text()\<close>, which may raise. The result is \<open>None\<close> when the splitter does not
  return on some page, \<open>Some (Inl e)\<close> when an exception leaves the loop.
\<close>

fun pdf_pages ::
  "int \<Rightarrow> int \<Rightarrow> string \<Rightarrow> nat \<Rightarrow> (error + string) list \<Rightarrow> (error + chunk list) option" where
  "pdf_pages chunk_size chunk_overlap source i [] = Some (Inr [])"
| "pdf_pages chunk_size chunk_overlap source i (Inl e # pages) = Some (Inl e)"
| "pdf_pages chunk_size chunk_overlap source i (Inr text # pages) =
     (if strip text = [] then pdf_pages chunk_size chunk_overlap source (i + 1) pages
      else
        (case split_text chunk_size chunk_overlap text of
           None \<Rightarrow> None
         | Some text_chunks \<Rightarrow>
             (case pdf_pages chunk_size chunk_overlap source (i + 1) pages of
                None \<Rightarrow> None
              | Some (Inl e) \<Rightarrow> Some (Inl e)
              | Some (Inr rest) \<Rightarrow> Some (Inr (page_chunks source i text_chunks @ rest)))))"

text \<open>
  \<open>read_pages file_path\<close> is opening the file and reading it with \<open>pypdf.PdfReader\<close>: it
  raises, or gives the pages. The \<open>except\<close> clause logs and re-raises.
\<close>

record pdf_processor =
  chunk_size :: int
  chunk_overlap :: int
  read_pages :: "string \<Rightarrow> error + (error + string) list"
  pdf_path_name :: "string \<Rightarrow> string"

definition default_chunk_size :: int where
  "default_chunk_size = 1000"

definition default_chunk_overlap :: int where
  "default_chunk_overlap = 200"

definition pdf_process :: "pdf_processor \<Rightarrow> string \<Rightarrow> (error + chunk list) option" where
  "pdf_process self file_path =
     (case read_pages self file_path of
        Inl e \<Rightarrow> Some (Inl e)
      | Inr pages \<Rightarrow>
          pdf_pages (chunk_size self) (chunk_overlap self) (pdf_path_name self file_path) 0 pages)"

subsection \<open>Audio: \<open>AudioProcessor.process\<close>\<close>

text \<open>
  The speech-to-text model and the text splitter are external capabilities:
  \<open>transcribe\<close> is \<open>self.model.transcribe\<close>, giving the result dict or raising, and
  \<open>split_transcript\<close> is \<open>self.text_splitter.split_text\<close>, applied to \<open>result["text"]\<close>.
\<close>

record audio_processor =
  transcribe :: "string \<Rightarrow> error + pydict"
  split_transcript :: "pyval \<Rightarrow> error + string list"
  audio_path_name :: "string \<Rightarrow> string"

definition no_speech_chunk :: "string \<Rightarrow> chunk" where
  "no_speech_chunk source =
     \<lparr>content = ''[Audio content detected]'',
      metadata = [(''document_type'', PStr ''audio''),
                  (''source_file'', PStr source),
                  (''language'', PStr ''en''),
                  (''status'', PStr ''no_speech_detected'')]\<rparr>"

definition error_chunk :: "string \<Rightarrow> error \<Rightarrow> chunk" where
  "error_chunk source e =
     \<lparr>content = ''[Error processing audio: '' @ e @ '']'',
      metadata = [(''document_type'', PStr ''audio''),
                  (''source_file'', PStr source),
                  (''status'', PStr ''error''),
                  (''error'', PStr e)]\<rparr>"

definition transcript_chunks :: "string \<Rightarrow> pydict \<Rightarrow> string list \<Rightarrow> chunk list" where
  "transcript_chunks source result text_chunks =
     map (\<lambda>(i, chunk_text).
            \<lparr>content = strip chunk_text,
             metadata = [(''document_type'', PStr ''audio''),
                         (''chunk_index'', PInt (int i)),
                         (''total_chunks'', PInt (int (length text_chunks))),
                         (''source_file'', PStr source),
                         (''language'', dict_get_default result ''language'' (PStr ''en''))]\<rparr>)
         (enumerate 0 text_chunks)"

text \<open>The body of the \<open>try\<close> block.\<close>

definition audio_try :: "audio_processor \<Rightarrow> string \<Rightarrow> error + chunk list" where
  "audio_try self file_path =
     (case transcribe self file_path of
        Inl e \<Rightarrow> Inl e
      | Inr result \<Rightarrow>
          if result = [] \<or> \<not> truthy (dict_get result ''text'')
          then Inr [no_speech_chunk (audio_path_name self file_path)]
          else
            (case split_transcript self (dict_get result ''text'') of
               Inl e \<Rightarrow> Inl e
             | Inr text_chunks \<Rightarrow>
                 Inr (transcript_chunks (audio_path_name self file_path) result text_chunks)))"

text \<open>The whole method: \<open>except Exception\<close> returns the error chunk instead of raising.\<close>

definition audio_process :: "audio_processor \<Rightarrow> string \<Rightarrow> error + chunk list" where
  "audio_process self file_path =
     (case audio_try self file_path of
        Inl e \<Rightarrow> Inr [error_chunk (audio_path_name self file_path) e]
      | Inr chunks \<Rightarrow> Inr chunks)"

subsection \<open>Video: \<open>VideoProcessor.process\<close>\<close>










section \<open>The vector index: \<open>ChromaStore\<close>\<close>

text \<open>
  The backing store (\<open>self.vectorstore\<close>, a LangChain Chroma collection) is an external
  collaborator. Each of its operations either raises or returns:
  \<open>vs_add_texts texts metadatas\<close> the assigned ids,
  \<open>vs_search query k filter\<close> the documents (page content and metadata) with their scores,
  \<open>vs_get ids\<close> the \<open>documents\<close> and \<open>metadatas\<close> lists of its answer,
  \<open>vs_delete ids\<close> nothing.
\<close>

record vectorstore =
  vs_add_texts :: "string list \<Rightarrow> pydict list \<Rightarrow> error + string list"
  vs_search :: "string \<Rightarrow> int \<Rightarrow> pydict option \<Rightarrow> error + ((string \<times> pydict) \<times> real) list"
  vs_get :: "string list \<Rightarrow> error + (string list \<times> pydict list)"
  vs_delete :: "string list \<Rightarrow> error + unit"

record search_result =
  sr_id :: string
  sr_content :: string
  sr_score :: real
  sr_metadata :: pydict

record document =
  doc_content :: string
  doc_metadata :: pydict


text \<open>The metadata dict literal built by \<open>add_document\<close> and by \<open>batch_add_documents\<close>.\<close>

definition stored_metadata :: "chunk \<Rightarrow> pydict" where
  "stored_metadata c =
     [(''document_type'', dict_get (metadata c) ''document_type''),
      (''page_number'', dict_get (metadata c) ''page_number''),
      (''timestamp'', dict_get_default (metadata c) ''timestamp'' (PFloat 0)),
      (''source_file'', dict_get (metadata c) ''source_file''),
      (''chunk_index'', dict_get_default (metadata c) ''chunk_index'' (PInt 0)),
      (''language'', dict_get_default (metadata c) ''language'' (PStr ''en''))]"

definition add_texts :: "vectorstore \<Rightarrow> string list \<Rightarrow> pydict list \<Rightarrow> error + string list" where
  "add_texts vs texts metadatas = vs_add_texts vs texts metadatas"

text \<open>The texts and metadatas that \<open>add_document\<close> hands to \<open>add_texts\<close>.\<close>

definition add_document_args :: "chunk \<Rightarrow> string list \<times> pydict list" where
  "add_document_args c = ([content c], [stored_metadata c])"

definition add_document :: "vectorstore \<Rightarrow> chunk \<Rightarrow> error + string" where
  "add_document vs c =
     (case add_document_args c of
        (texts, metadatas) \<Rightarrow>
          (case add_texts vs texts metadatas of
             Inl e \<Rightarrow> Inl e
           | Inr ids \<Rightarrow> (case ids of [] \<Rightarrow> Inl ''list index out of range'' | i # _ \<Rightarrow> Inr i)))"

text \<open>
  The loop of \<open>batch_add_documents\<close>, appending one text and one metadata dict per chunk,
  and the call on the two lists it has built.
\<close>

definition batch_args :: "chunk list \<Rightarrow> string list \<times> pydict list" where
  "batch_args chunks =
     foldl (\<lambda>(texts, metadatas) c. (texts @ [content c], metadatas @ [stored_metadata c]))
           ([], []) chunks"

definition batch_add_documents :: "vectorstore \<Rightarrow> chunk list \<Rightarrow> error + unit" where
  "batch_add_documents vs chunks =
     (case batch_args chunks of
        (texts, metadatas) \<Rightarrow>
          (case vs_add_texts vs texts metadatas of
             Inl e \<Rightarrow> Inl e
           | Inr _ \<Rightarrow> Inr ()))"

definition search_filter :: "string option \<Rightarrow> pydict option" where
  "search_filter document_type =
     (case document_type of
        None \<Rightarrow> None
      | Some d \<Rightarrow> if d \<noteq> [] then Some [(''document_type'', PStr d)] else None)"

text \<open>
  \<open>SearchResult\<close> is a pydantic model whose field \<open>id\<close> is declared \<open>str\<close>: building a
  result validates the value found under \<open>id\<close> in the document's metadata, and a value
  that is not a string is refused with a validation error. The content is the document's
  page content, a string, and the score a number, as the backing store gives them.
\<close>

definition validate_str :: "pyval \<Rightarrow> error + string" where
  "validate_str v = (case v of PStr s \<Rightarrow> Inr s | _ \<Rightarrow> Inl ''Input should be a valid string'')"

definition to_search_result :: "(string \<times> pydict) \<times> real \<Rightarrow> error + search_result" where
  "to_search_result ds =
     (case ds of
        ((page_content, md), score) \<Rightarrow>
          (case validate_str (dict_get_default md ''id'' (PStr [])) of
             Inl e \<Rightarrow> Inl e
           | Inr i \<Rightarrow>
               Inr \<lparr>sr_id = i,
                    sr_content = page_content,
                    sr_score = score,
                    sr_metadata = [(''document_type'', dict_get md ''document_type''),
                                   (''page_number'', dict_get md ''page_number''),
                                   (''source_file'', dict_get md ''source_file''),
                                   (''language'', dict_get md ''language'')]\<rparr>))"

text \<open>The loop \<open>for doc, score in docs_and_scores\<close>: the first result that cannot be built
  raises and ends the loop.\<close>

fun search_results :: "((string \<times> pydict) \<times> real) list \<Rightarrow> error + search_result list" where
  "search_results [] = Inr []"
| "search_results (d # ds) =
     (case to_search_result d of
        Inl e \<Rightarrow> Inl e
      | Inr r \<Rightarrow> (case search_results ds of Inl e \<Rightarrow> Inl e | Inr rs \<Rightarrow> Inr (r # rs)))"

definition default_limit :: int where
  "default_limit = 5"

text \<open>The whole method: \<open>except Exception\<close> returns the empty list, whatever was raised in
  the \<open>try\<close> block, by the backing store or by building a result.\<close>

definition search :: "vectorstore \<Rightarrow> string \<Rightarrow> string option \<Rightarrow> int \<Rightarrow> error + search_result list" where
  "search vs query document_type limit =
     (case vs_search vs query limit (search_filter document_type) of
        Inl e \<Rightarrow> Inr []
      | Inr docs_and_scores \<Rightarrow>
          (case search_results docs_and_scores of
             Inl e \<Rightarrow> Inr []
           | Inr results \<Rightarrow> Inr results))"

definition get_document :: "vectorstore \<Rightarrow> string \<Rightarrow> error + document option" where
  "get_document vs document_id =
     (case vs_get vs [document_id] of
        Inl e \<Rightarrow> Inr None
      | Inr (documents, metadatas) \<Rightarrow>
          (case documents of
             [] \<Rightarrow> Inr None
           | doc # _ \<Rightarrow>
               (case metadatas of
                  [] \<Rightarrow> Inr None
                | md # _ \<Rightarrow>
                    Inr (Some \<lparr>doc_content = doc,
                               doc_metadata = [(''document_type'', dict_get md ''document_type''),
                                               (''page_number'', dict_get md ''page_number''),
                                               (''source_file'', dict_get md ''source_file''),
                                               (''language'', dict_get md ''language'')]\<rparr>))))"

definition delete_document :: "vectorstore \<Rightarrow> string \<Rightarrow> error + unit" where
  "delete_document vs document_id =
     (case vs_delete vs [document_id] of Inl e \<Rightarrow> Inl e | Inr _ \<Rightarrow> Inr ())"

section \<open>Sample inputs\<close>

text \<open>A backing store that is down for writes, queries and deletions and holds no document.\<close>

definition failing_store :: vectorstore where
  "failing_store =
     \<lparr>vs_add_texts = (\<lambda>texts metadatas. Inl ''store unavailable''),
      vs_search = (\<lambda>query k flt. Inl ''store unavailable''),
      vs_get = (\<lambda>ids. Inr ([], [])),
      vs_delete = (\<lambda>ids. Inl ''store unavailable'')\<rparr>"

text \<open>An audio extractor whose speech-to-text model gives the result \<open>r\<close> and whose splitter
  cuts a transcript into two fixed pieces.\<close>

definition sample_audio :: "(error + pydict) \<Rightarrow> audio_processor" where
  "sample_audio r =
     \<lparr>transcribe = (\<lambda>file_path. r),
      split_transcript = (\<lambda>t. Inr ['' first part '', ''second part'']),
      audio_path_name = (\<lambda>file_path. ''hearing.wav'')\<rparr>"

text \<open>A text-document extractor with the default sizes over fixed pages.\<close>

definition sample_pdf :: "(error + (error + string) list) \<Rightarrow> pdf_processor" where
  "sample_pdf r =
     \<lparr>chunk_size = default_chunk_size,
      chunk_overlap = default_chunk_overlap,
      read_pages = (\<lambda>file_path. r),
      pdf_path_name = (\<lambda>file_path. ''contract.pdf'')\<rparr>"

text \<open>
  A backing store that answers every query with two documents: \<open>labels\<close> are the values
  their metadata holds under \<open>id\<close>.
\<close>

definition answering_store :: "pyval \<times> pyval \<Rightarrow> vectorstore" where
  "answering_store labels =
     \<lparr>vs_add_texts = (\<lambda>texts metadatas. Inr (map (\<lambda>t. ''doc'') texts)),
      vs_search = (\<lambda>query k flt.
         Inr [((''The lessee shall pay rent.'',
                [(''id'', fst labels), (''document_type'', PStr ''pdf'')]), 0),
              ((''The lessor shall repair the roof.'',
                [(''id'', snd labels), (''document_type'', PStr ''pdf'')]), 1)]),
      vs_get = (\<lambda>ids. Inr ([], [])),
      vs_delete = (\<lambda>ids. Inr ())\<rparr>"




text \<open>The chunk indices of a sequence are 0, 1, ... in order.\<close>

definition indexed_from_zero :: "chunk list \<Rightarrow> bool" where
  "indexed_from_zero cs =
     (map (\<lambda>c. map_of (metadata c) ''chunk_index'') cs =
      map (\<lambda>j. Some (PInt (int j))) [0 ..< length cs])"

section \<open>Properties of the chunking engine\<close>

subsection \<open>A cursor that does not move\<close>

lemma split_loop_returns_moves:
  "split_loop cs ov t s ch = Some y \<Longrightarrow>
     \<not> (s < int (length t) \<and> fst (window cs t s) - ov = s)"
proof (rule split_loop.raw_induct
    [where P = "\<lambda>cs ov t s ch y. \<not> (s < int (length t) \<and> fst (window cs t s) - ov = s)"])
  fix loop :: "int \<Rightarrow> int \<Rightarrow> string \<Rightarrow> int \<Rightarrow> string list \<Rightarrow> string list option"
  fix cs ov t s ch y
  assume IH: "\<And>cs ov t s ch y. loop cs ov t s ch = Some y \<Longrightarrow>
                \<not> (s < int (length t) \<and> fst (window cs t s) - ov = s)"
  assume pass: "(if s < int (length t) then
                   (case window cs t s of (e, c) \<Rightarrow> loop cs ov t (e - ov) (ch @ [c]))
                 else Some ch) = Some y"
  show "\<not> (s < int (length t) \<and> fst (window cs t s) - ov = s)"
  proof
    assume same: "s < int (length t) \<and> fst (window cs t s) - ov = s"
    obtain e c where w: "window cs t s = (e, c)" by (cases "window cs t s")
    from pass same w have "loop cs ov t s (ch @ [c]) = Some y" by simp
    from IH [OF this] same show False by simp
  qed
qed

lemma split_loop_stuck:
  "s < int (length t) \<Longrightarrow> fst (window cs t s) - ov = s \<Longrightarrow> split_loop cs ov t s ch = None"
  using split_loop_returns_moves [of cs ov t s ch] by (cases "split_loop cs ov t s ch") auto

subsection \<open>Searching backwards for a break point\<close>

lemma rfind_from_absent: "c \<notin> set xs \<Longrightarrow> rfind_from c xs i f = f"
  by (induction xs arbitrary: i f) auto

lemma rfind_from_append:
  "rfind_from c (xs @ ys) i f = rfind_from c ys (i + int (length xs)) (rfind_from c xs i f)"
  by (induction xs arbitrary: i f) (auto simp: algebra_simps)

lemma rfind_last_occurrence: "c \<notin> set ys \<Longrightarrow> rfind (xs @ c # ys) c = int (length xs)"
  by (simp add: rfind_def rfind_from_append rfind_from_absent)

lemma rfind_absent: "c \<notin> set xs \<Longrightarrow> rfind xs c = - 1"
  by (simp add: rfind_def rfind_from_absent)

subsection \<open>Texts without a break point\<close>

lemma set_py_slice: "set (py_slice s i j) \<subseteq> set s"
  unfolding py_slice_def Let_def
  by (meson set_take_subset set_drop_subset subset_trans)

lemma window_unbroken:
  assumes "CHR 0x0A \<notin> set t" "CHR '' '' \<notin> set t"
  shows "window cs t s = (s + cs, py_slice t s (s + cs))"
proof -
  have "CHR 0x0A \<notin> set (py_slice t s (s + cs))" "CHR '' '' \<notin> set (py_slice t s (s + cs))"
    using assms set_py_slice [of t s "s + cs"] by auto
  then show ?thesis by (simp add: window_def Let_def rfind_absent)
qed

lemma py_slice_take_drop:
  assumes "0 \<le> cs"
  shows "py_slice t (int a) (int a + cs) = take (nat cs) (drop a t)"
proof (cases "int a + cs \<le> int (length t)")
  case True
  then have "a \<le> length t" using assms by linarith
  moreover have "nat (int a + cs - int a) = nat cs" by simp
  ultimately show ?thesis
    using True assms by (simp add: py_slice_def Let_def adjust_index_def min_def)
next
  case False
  show ?thesis
  proof (cases "a \<le> length t")
    case True
    have "nat (int (length t) - int a) = length t - a" using True by linarith
    moreover have "length t - a \<le> nat cs" using False True by linarith
    ultimately show ?thesis
      using True False assms by (simp add: py_slice_def Let_def adjust_index_def min_def)
  next
    case False
    then show ?thesis
      using assms by (simp add: py_slice_def Let_def adjust_index_def min_def)
  qed
qed

lemma split_loop_unbroken:
  assumes nl: "CHR 0x0A \<notin> set t" and sp: "CHR '' '' \<notin> set t"
      and ov: "0 \<le> ov" "ov < cs"
  shows "split_loop cs ov t (int (k * nat (cs - ov))) acc =
           Some (acc @ map (\<lambda>j. take (nat cs) (drop (j * nat (cs - ov)) t))
                           [k ..< (length t + nat (cs - ov) - 1) div nat (cs - ov)])"
proof -
  let ?d = "nat (cs - ov)"
  let ?n = "(length t + ?d - 1) div ?d"
  have d: "0 < ?d" using ov by simp
  have lt: "k * ?d < length t \<longleftrightarrow> k < ?n" for k
  proof -
    have "k < ?n \<longleftrightarrow> Suc k \<le> ?n" by auto
    also have "\<dots> \<longleftrightarrow> Suc k * ?d \<le> length t + ?d - 1"
      using d by (simp only: less_eq_div_iff_mult_less_eq)
    also have "\<dots> \<longleftrightarrow> k * ?d < length t" using d by auto
    finally show ?thesis by simp
  qed
  show ?thesis
  proof (induction "?n - k" arbitrary: k acc)
    case 0
    then have "\<not> k < ?n" by simp
    then have "\<not> k * ?d < length t" using lt by simp
    then have stop: "\<not> int (k * ?d) < int (length t)" unfolding of_nat_less_iff .
    have none: "[k ..< ?n] = []" using \<open>\<not> k < ?n\<close> by simp
    show ?case
      by (subst split_loop.simps) (simp only: stop none if_False list.map append_Nil2)
  next
    case (Suc m)
    let ?c = "take (nat cs) (drop (k * ?d) t)"
    let ?f = "\<lambda>j. take (nat cs) (drop (j * ?d) t)"
    define s where "s = int (k * ?d)"
    from Suc have kn: "k < ?n" by simp
    then have "k * ?d < length t" using lt by simp
    then have go: "s < int (length t)" unfolding s_def of_nat_less_iff .
    have "int (Suc k * ?d) = int (k * ?d) + int ?d" by simp
    also have "int ?d = cs - ov" using ov by simp
    finally have nxt: "s + cs - ov = int (Suc k * ?d)" unfolding s_def by simp
    have "py_slice t s (s + cs) = ?c"
      unfolding s_def using ov by (intro py_slice_take_drop) simp
    then have w: "window cs t s = (s + cs, ?c)"
      by (simp only: window_unbroken [OF nl sp])
    have "?n - Suc k = m" using Suc.hyps(2) by simp
    then have rest: "split_loop cs ov t (int (Suc k * ?d)) (acc @ [?c]) =
        Some ((acc @ [?c]) @ map ?f [Suc k ..< ?n])"
      using Suc.hyps(1) [of "Suc k" "acc @ [?c]"] by simp
    have cons: "[k ..< ?n] = k # [Suc k ..< ?n]" using kn by (simp add: upt_conv_Cons)
    have "split_loop cs ov t s acc = split_loop cs ov t (s + cs - ov) (acc @ [?c])"
      by (subst split_loop.simps) (simp only: go if_True w prod.case)
    also have "\<dots> = Some ((acc @ [?c]) @ map ?f [Suc k ..< ?n])"
      by (simp only: nxt rest)
    also have "(acc @ [?c]) @ map ?f [Suc k ..< ?n] = acc @ map ?f [k ..< ?n]"
      by (simp only: cons list.map append_assoc append_Cons append_Nil)
    finally show ?case unfolding s_def .
  qed
qed

lemma concat_pieces: "concat (map (\<lambda>j. take d (drop (j * d) t)) [0 ..< n]) = take (n * d) t"
proof (induction n)
  case 0
  then show ?case by simp
next
  case (Suc n)
  have "take (n * d) t @ take d (drop (n * d) t) = take (n * d + d) t"
    by (simp add: take_add)
  with Suc show ?case by (simp add: add.commute)
qed

lemma passes_cover:
  fixes n d :: nat
  assumes "0 < d"
  shows "n \<le> (n + d - 1) div d * d"
proof -
  define q where "q = (n + d - 1) div d"
  have "n + d - 1 < d + d * q"
    unfolding q_def by (rule dividend_less_times_div [OF assms])
  then have "n \<le> d * q" using assms by linarith
  then show ?thesis by (simp add: q_def mult.commute)
qed

text \<open>
  On a text that holds neither a newline nor a space no window is cut short: with
  \<open>0 \<le> chunk_overlap < chunk_size\<close> the cursor advances by \<open>chunk_size - chunk_overlap\<close> at
  every pass, the loop returns, and the chunks' parts before the next chunk's start give
  the text back.
\<close>

lemma split_text_unbroken:
  assumes "CHR 0x0A \<notin> set t" "CHR '' '' \<notin> set t" "0 \<le> ov" "ov < cs"
  shows "\<exists>chunks. split_text cs ov t = Some chunks \<and>
           length chunks = (length t + nat (cs - ov) - 1) div nat (cs - ov) \<and>
           concat (map (take (nat (cs - ov))) chunks) = t"
proof -
  let ?d = "nat (cs - ov)"
  let ?n = "(length t + ?d - 1) div ?d"
  let ?chunks = "map (\<lambda>j. take (nat cs) (drop (j * ?d) t)) [0 ..< ?n]"
  have d: "0 < ?d" "?d \<le> nat cs" using assms by simp_all
  have "split_text cs ov t = Some ?chunks"
    using split_loop_unbroken [OF assms, of 0 "[]"] by (simp add: split_text_def)
  moreover have "concat (map (take ?d) ?chunks) = take (?n * ?d) t"
    using d concat_pieces [of ?d t ?n] by (simp add: comp_def min_absorb1)
  moreover have "length t \<le> ?n * ?d"
    using d(1) by (rule passes_cover)
  ultimately show ?thesis by (intro exI [of _ ?chunks]) simp
qed

subsection \<open>The scenario string\<close>

lemma length_scenario_text: "length scenario_text = 3001"
  by (simp add: scenario_text_def)

lemma scenario_window_0: "window 1000 scenario_text 0 = (1000, replicate 1000 (CHR ''A''))"
proof -
  have "py_slice scenario_text 0 1000 = replicate 1000 (CHR ''A'')"
    by (simp add: py_slice_def adjust_index_def scenario_text_def)
  then show ?thesis by (simp add: window_def length_scenario_text rfind_absent)
qed

lemma scenario_window_800: "window 1000 scenario_text 800 = (1500, replicate 700 (CHR ''A''))"
proof -
  let ?w = "replicate 700 (CHR ''A'') @ CHR '' '' # replicate 299 (CHR ''B'')"
  have "py_slice scenario_text 800 1800 = ?w"
    by (simp add: py_slice_def adjust_index_def scenario_text_def)
  moreover have "rfind ?w (CHR '' '') = 700"
    by (subst rfind_last_occurrence) simp_all
  moreover have "rfind ?w (CHR 0x0A) = - 1"
    by (rule rfind_absent) simp
  moreover have "py_slice scenario_text 800 1500 = replicate 700 (CHR ''A'')"
    by (simp add: py_slice_def adjust_index_def scenario_text_def)
  ultimately show ?thesis by (simp add: window_def length_scenario_text)
qed

lemma scenario_window_1300: "window 1000 scenario_text 1300 = (1500, replicate 200 (CHR ''A''))"
proof -
  let ?w = "replicate 200 (CHR ''A'') @ CHR '' '' # replicate 799 (CHR ''B'')"
  have "py_slice scenario_text 1300 2300 = ?w"
    by (simp add: py_slice_def adjust_index_def scenario_text_def)
  moreover have "rfind ?w (CHR '' '') = 200"
    by (subst rfind_last_occurrence) simp_all
  moreover have "rfind ?w (CHR 0x0A) = - 1"
    by (rule rfind_absent) simp
  moreover have "py_slice scenario_text 1300 1500 = replicate 200 (CHR ''A'')"
    by (simp add: py_slice_def adjust_index_def scenario_text_def)
  ultimately show ?thesis by (simp add: window_def length_scenario_text)
qed

text \<open>
  Claim C8 (the scenario of 1500 A, a space and 1500 B with sizes 1000 and 200). The first
  pass cuts the raw window at 1000 and moves the cursor to 800; the second pass cuts at
  the space, position 1500, and moves the cursor to 1300; the third pass cuts at the same
  space, 200 characters after the cursor, so the cursor stays at 1300: the call never
  returns a chunk sequence.
\<close>

theorem scenario_never_returns:
  "window 1000 scenario_text 0 = (1000, replicate 1000 (CHR ''A'')) \<and>
   window 1000 scenario_text (1000 - 200) = (1500, replicate 700 (CHR ''A'')) \<and>
   window 1000 scenario_text (1500 - 200) = (1500, replicate 200 (CHR ''A'')) \<and>
   split_text 1000 200 scenario_text = None"
proof -
  have stuck: "split_loop 1000 200 scenario_text 1300 ch = None" for ch
    by (rule split_loop_stuck) (simp_all add: length_scenario_text scenario_window_1300)
  have "split_text 1000 200 scenario_text = None"
    unfolding split_text_def
    apply (subst split_loop.simps, simp add: length_scenario_text scenario_window_0)
    apply (subst split_loop.simps, simp add: length_scenario_text scenario_window_800)
    apply (rule stuck)
    done
  then show ?thesis
    using scenario_window_0 scenario_window_800 scenario_window_1300 by simp
qed

text \<open>
  Claim C2 (the loop terminates whenever the size exceeds the overlap). With size 4 and
  overlap 0 on a text that starts with its only space, the first window is cut at
  position 0: the chunk is empty, the cursor stays at 0, and the loop never returns.
  No configuration error is raised.
\<close>

theorem leading_space_never_returns: "split_text 4 0 '' abcdefgh'' = None"
  unfolding split_text_def
  by (rule split_loop_stuck) (simp_all add: window_def py_slice_def adjust_index_def rfind_def)

text \<open>
  Claim C1 (the chunks' prefixes up to the next chunk's start, and the last chunk, give
  the text back with no character dropped). With size 4 and overlap 1 on the same text the
  cut at position 0 sends the cursor to -1; the call returns, but the chunks do not cover
  the text: its second character occurs in no chunk.
\<close>

theorem split_text_drops_characters:
  "split_text 4 1 '' abcdefgh'' = Some [ [], [], ''bcde'', ''efgh'', ''h''] \<and>
   map_option (\<lambda>chunks. CHR ''a'' \<in> set (concat chunks)) (split_text 4 1 '' abcdefgh'')
     = Some False \<and>
   CHR ''a'' \<in> set '' abcdefgh''"
  unfolding split_text_def
  by (simp add: split_loop.simps window_def py_slice_def adjust_index_def rfind_def)

section \<open>Properties of the chunk validity check\<close>

lemma length_strip_le: "length (strip s) \<le> length s"
proof -
  have "length (strip s) \<le> length (dropWhile is_space s)"
    unfolding strip_def using length_dropWhile_le [of is_space "rev (dropWhile is_space s)"] by simp
  also have "\<dots> \<le> length s" by (rule length_dropWhile_le)
  finally show ?thesis .
qed

text \<open>
  Claim C4, as stated, fails: a chunk of six characters that carries
  \<open>status = "error"\<close> is rejected by the validity check with the default minimum.
\<close>

theorem short_error_chunk_rejected:
  "dict_get (metadata \<lparr>content = ''failed'', metadata = [(''status'', PStr ''error'')]\<rparr>) ''status''
     = PStr ''error'' \<and>
   \<not> validate_chunk default_min_chunk_size
       \<lparr>content = ''failed'', metadata = [(''status'', PStr ''error'')]\<rparr>"
  by (simp add: validate_chunk_def chunk_len_def default_min_chunk_size_def dict_get_def
        strip_def is_space_def)

text \<open>
  Claim C4, amended: the validity check reads the content only. Whatever the metadata
  (a status included), a chunk whose trimmed content is shorter than the minimum is
  rejected, so is one whose untrimmed content is already shorter, and a chunk whose
  trimmed content reaches the minimum is accepted.
\<close>

theorem validate_chunk_by_length_only:
  "validate_chunk m (c\<lparr>metadata := md\<rparr>) = validate_chunk m c \<and>
   (int (length (strip (content c))) < m \<longrightarrow> \<not> validate_chunk m (c\<lparr>metadata := md\<rparr>)) \<and>
   (int (length (content c)) < m \<longrightarrow> \<not> validate_chunk m (c\<lparr>metadata := md\<rparr>)) \<and>
   (m \<le> int (length (strip (content c))) \<longrightarrow> validate_chunk m (c\<lparr>metadata := md\<rparr>))"
  using length_strip_le [of "content c"] by (auto simp: validate_chunk_def chunk_len_def)

theorem validate_chunk_by_length_only_witness:
  "\<not> validate_chunk 10 \<lparr>content = ''  short  '', metadata = [(''status'', PStr ''error'')]\<rparr> \<and>
   validate_chunk 10 \<lparr>content = '' long enough '', metadata = [(''status'', PStr ''error'')]\<rparr>"
  using validate_chunk_by_length_only
          [where m = 10 and c = "\<lparr>content = ''  short  '', metadata = []\<rparr>"
             and md = "[(''status'', PStr ''error'')]"]
        validate_chunk_by_length_only
          [where m = 10 and c = "\<lparr>content = '' long enough '', metadata = []\<rparr>"
             and md = "[(''status'', PStr ''error'')]"]
  by (auto simp add: strip_def is_space_def)

section \<open>Properties of the content extractors\<close>

text \<open>
  Claim C7: when the speech-to-text result holds no text (the key is missing, or its
  value is empty), the audio extractor returns exactly one chunk, with the placeholder
  content and the status \<open>no_speech_detected\<close>.
\<close>

theorem no_text_gives_sentinel:
  "transcribe a fp = Inr result \<Longrightarrow> \<not> truthy (dict_get result ''text'') \<Longrightarrow>
     audio_process a fp = Inr [no_speech_chunk (audio_path_name a fp)] \<and>
     content (no_speech_chunk (audio_path_name a fp)) = ''[Audio content detected]'' \<and>
     map_of (metadata (no_speech_chunk (audio_path_name a fp))) ''status''
       = Some (PStr ''no_speech_detected'')"
  by (simp add: audio_process_def audio_try_def no_speech_chunk_def)

theorem no_text_gives_sentinel_witness:
  "audio_process (sample_audio (Inr [(''text'', PStr []), (''language'', PStr ''en'')]))
       ''in/hearing.wav''
     = Inr [\<lparr>content = ''[Audio content detected]'',
             metadata = [(''document_type'', PStr ''audio''),
                         (''source_file'', PStr ''hearing.wav''),
                         (''language'', PStr ''en''),
                         (''status'', PStr ''no_speech_detected'')]\<rparr>]"
  using no_text_gives_sentinel
          [of "sample_audio (Inr [(''text'', PStr []), (''language'', PStr ''en'')])"
              "''in/hearing.wav''" "[(''text'', PStr []), (''language'', PStr ''en'')]"]
  by (simp add: sample_audio_def dict_get_def no_speech_chunk_def)

subsection \<open>Failures of extraction\<close>








subsection \<open>Positions of the chunks\<close>

lemma map_enumerate_fst:
  "map (\<lambda>(j, x). f j) (enumerate n xs) = map f [n ..< n + length xs]"
proof -
  have "map (\<lambda>(j, x). f j) (enumerate n xs) = map f (map fst (enumerate n xs))"
    unfolding map_map by (rule map_cong) auto
  also have "map fst (enumerate n xs) = [n ..< n + length xs]"
    by (rule map_fst_enumerate)
  finally show ?thesis .
qed

lemma page_chunks_indexed: "indexed_from_zero (page_chunks src i tcs)"
  unfolding indexed_from_zero_def page_chunks_def
  using map_enumerate_fst [of "\<lambda>j. Some (PInt (int j))" 0 tcs]
  by (simp add: comp_def case_prod_unfold)

lemma page_chunks_page_number:
  "c \<in> set (page_chunks src i tcs) \<Longrightarrow> map_of (metadata c) ''page_number'' = Some (PInt (int i + 1))"
  by (auto simp: page_chunks_def)

lemma transcript_chunks_indexed: "indexed_from_zero (transcript_chunks src result tcs)"
  unfolding indexed_from_zero_def transcript_chunks_def
  using map_enumerate_fst [of "\<lambda>j. Some (PInt (int j))" 0 tcs]
  by (simp add: comp_def case_prod_unfold)

lemma transcript_chunks_total:
  "c \<in> set (transcript_chunks src result tcs) \<Longrightarrow>
     map_of (metadata c) ''total_chunks'' = Some (PInt (int (length tcs)))"
  by (auto simp: transcript_chunks_def)

lemma length_transcript_chunks: "length (transcript_chunks src result tcs) = length tcs"
  by (simp add: transcript_chunks_def)

lemma pdf_pages_groups:
  "pdf_pages cs ov src i pages = Some (Inr out) \<Longrightarrow>
     \<exists>js tcss. length js = length tcss \<and> sorted_wrt (<) js \<and>
       (\<forall>j \<in> set js. i \<le> j \<and> j < i + length pages) \<and>
       (\<forall>(j, tcs) \<in> set (zip js tcss).
           \<exists>t. pages ! (j - i) = Inr t \<and> strip t \<noteq> [] \<and> split_text cs ov t = Some tcs) \<and>
       out = concat (map2 (page_chunks src) js tcss)"
proof (induction pages arbitrary: i out)
  case Nil
  then have "out = []" by simp
  then show ?case by (intro exI [of _ "[]"]) simp
next
  case (Cons p pages)
  show ?case
  proof (cases p)
    case (Inl e)
    with Cons.prems show ?thesis by simp
  next
    case (Inr t)
    show ?thesis
    proof (cases "strip t = []")
      case True
      with Cons.prems Inr have "pdf_pages cs ov src (i + 1) pages = Some (Inr out)" by simp
      from Cons.IH [OF this] obtain js tcss where
        len: "length js = length tcss" and srt: "sorted_wrt (<) js" and
        rng: "\<forall>j \<in> set js. i + 1 \<le> j \<and> j < i + 1 + length pages" and
        pg: "\<forall>(j, tcs) \<in> set (zip js tcss).
               \<exists>t. pages ! (j - (i + 1)) = Inr t \<and> strip t \<noteq> [] \<and> split_text cs ov t = Some tcs" and
        out: "out = concat (map2 (page_chunks src) js tcss)"
        by blast
      have "\<forall>(j, tcs) \<in> set (zip js tcss).
               \<exists>t. (p # pages) ! (j - i) = Inr t \<and> strip t \<noteq> [] \<and> split_text cs ov t = Some tcs"
      proof (clarify)
        fix j tcs assume m: "(j, tcs) \<in> set (zip js tcss)"
        then have "j \<in> set js" by (rule set_zip_leftD)
        with rng have "i + 1 \<le> j" by blast
        then have "j - i = Suc (j - (i + 1))" by simp
        with pg m show "\<exists>t. (p # pages) ! (j - i) = Inr t \<and> strip t \<noteq> [] \<and> split_text cs ov t = Some tcs"
          by auto
      qed
      moreover from rng have "\<forall>j \<in> set js. i \<le> j \<and> j < i + length (p # pages)" by auto
      ultimately show ?thesis using len srt out by blast
    next
      case False
      with Cons.prems Inr obtain tcs rest where
        sp: "split_text cs ov t = Some tcs" and
        rec: "pdf_pages cs ov src (i + 1) pages = Some (Inr rest)" and
        o: "out = page_chunks src i tcs @ rest"
        by (auto split: option.splits sum.splits)
      from Cons.IH [OF rec] obtain js tcss where
        len: "length js = length tcss" and srt: "sorted_wrt (<) js" and
        rng: "\<forall>j \<in> set js. i + 1 \<le> j \<and> j < i + 1 + length pages" and
        pg: "\<forall>(j, tcs) \<in> set (zip js tcss).
               \<exists>t. pages ! (j - (i + 1)) = Inr t \<and> strip t \<noteq> [] \<and> split_text cs ov t = Some tcs" and
        out: "rest = concat (map2 (page_chunks src) js tcss)"
        by blast
      let ?js = "i # js" and ?tcss = "tcs # tcss"
      have "\<forall>(j, x) \<in> set (zip ?js ?tcss).
               \<exists>t. (p # pages) ! (j - i) = Inr t \<and> strip t \<noteq> [] \<and> split_text cs ov t = Some x"
      proof (clarify)
        fix j x assume m: "(j, x) \<in> set (zip ?js ?tcss)"
        then consider "j = i" "x = tcs" | "(j, x) \<in> set (zip js tcss)" by auto
        then show "\<exists>t. (p # pages) ! (j - i) = Inr t \<and> strip t \<noteq> [] \<and> split_text cs ov t = Some x"
        proof cases
          case 1
          with Inr False sp show ?thesis by simp
        next
          case 2
          then have "j \<in> set js" by (rule set_zip_leftD)
          with rng have "i + 1 \<le> j" by blast
          then have "j - i = Suc (j - (i + 1))" by simp
          with pg 2 show ?thesis by auto
        qed
      qed
      moreover from rng have "\<forall>j \<in> set ?js. i \<le> j \<and> j < i + length (p # pages)" by auto
      moreover from rng srt have "sorted_wrt (<) ?js" by auto
      moreover from len have "length ?js = length ?tcss" by simp
      moreover from o out have "out = concat (map2 (page_chunks src) ?js ?tcss)" by simp
      ultimately show ?thesis by blast
    qed
  qed
qed

text \<open>
  Claim C5, as stated, fails on two sequences the extractors emit: the single chunk the
  audio extractor returns for an empty transcript carries neither \<open>chunk_index\<close> nor
  \<open>total_chunks\<close>, and the chunk of a one-page text document carries no \<open>total_chunks\<close>.
\<close>

theorem sentinel_and_page_chunks_lack_keys:
  "audio_process (sample_audio (Inr [])) ''in/hearing.wav'' = Inr [no_speech_chunk ''hearing.wav''] \<and>
   map_of (metadata (no_speech_chunk ''hearing.wav'')) ''chunk_index'' = None \<and>
   map_of (metadata (no_speech_chunk ''hearing.wav'')) ''total_chunks'' = None \<and>
   \<not> indexed_from_zero [no_speech_chunk ''hearing.wav''] \<and>
   pdf_process (sample_pdf (Inr [Inr ''Lease agreement''])) ''in/contract.pdf''
     = Some (Inr [\<lparr>content = ''Lease agreement'',
                   metadata = [(''document_type'', PStr ''pdf''), (''page_number'', PInt 1),
                               (''chunk_index'', PInt 0), (''source_file'', PStr ''contract.pdf''),
                               (''language'', PStr ''en'')]\<rparr>]) \<and>
   map_of [(''document_type'', PStr ''pdf''), (''page_number'', PInt 1),
           (''chunk_index'', PInt 0), (''source_file'', PStr ''contract.pdf''),
           (''language'', PStr ''en'')] ''total_chunks'' = None"
proof -
  have split: "split_text 1000 200 ''Lease agreement'' = Some [''Lease agreement'']"
    unfolding split_text_def
    by (simp add: split_loop.simps window_def py_slice_def adjust_index_def)
  have "pdf_process (sample_pdf (Inr [Inr ''Lease agreement''])) ''in/contract.pdf''
     = Some (Inr [\<lparr>content = ''Lease agreement'',
                   metadata = [(''document_type'', PStr ''pdf''), (''page_number'', PInt 1),
                               (''chunk_index'', PInt 0), (''source_file'', PStr ''contract.pdf''),
                               (''language'', PStr ''en'')]\<rparr>])"
    by (simp add: pdf_process_def sample_pdf_def default_chunk_size_def default_chunk_overlap_def
          split strip_def is_space_def page_chunks_def detect_language_def)
  moreover have "audio_process (sample_audio (Inr [])) ''in/hearing.wav'' = Inr [no_speech_chunk ''hearing.wav'']"
    by (simp add: audio_process_def audio_try_def sample_audio_def)
  ultimately show ?thesis
    by (simp add: no_speech_chunk_def indexed_from_zero_def)
qed

lemma positions_on_regular_paths:
  "(transcribe a fp = Inr result \<and> result \<noteq> [] \<and> truthy (dict_get result ''text'') \<and>
    split_transcript a (dict_get result ''text'') = Inr tcs \<longrightarrow>
      (\<exists>cs. audio_process a fp = Inr cs \<and> length cs = length tcs \<and> indexed_from_zero cs \<and>
            (\<forall>c \<in> set cs. map_of (metadata c) ''total_chunks'' = Some (PInt (int (length cs)))))) \<and>
   (pdf_process p fp = Some (Inr out) \<longrightarrow>
      (\<exists>pages js tcss.
          read_pages p fp = Inr pages \<and> length js = length tcss \<and> sorted_wrt (<) js \<and>
          out = concat (map2 (page_chunks (pdf_path_name p fp)) js tcss) \<and>
          (\<forall>(j, tcs) \<in> set (zip js tcss).
              indexed_from_zero (page_chunks (pdf_path_name p fp) j tcs) \<and>
              length (page_chunks (pdf_path_name p fp) j tcs) = length tcs \<and>
              (\<forall>c \<in> set (page_chunks (pdf_path_name p fp) j tcs).
                  map_of (metadata c) ''page_number'' = Some (PInt (int j + 1))) \<and>
              j < length pages \<and>
              (\<exists>t. pages ! j = Inr t \<and> strip t \<noteq> [] \<and>
                   split_text (chunk_size p) (chunk_overlap p) t = Some tcs))))"
proof (intro conjI impI)
  assume h: "transcribe a fp = Inr result \<and> result \<noteq> [] \<and> truthy (dict_get result ''text'') \<and>
    split_transcript a (dict_get result ''text'') = Inr tcs"
  let ?cs = "transcript_chunks (audio_path_name a fp) result tcs"
  from h have "audio_process a fp = Inr ?cs"
    by (simp add: audio_process_def audio_try_def)
  moreover have "length ?cs = length tcs" by (rule length_transcript_chunks)
  moreover have "indexed_from_zero ?cs" by (rule transcript_chunks_indexed)
  moreover have "\<forall>c \<in> set ?cs. map_of (metadata c) ''total_chunks'' = Some (PInt (int (length ?cs)))"
    using transcript_chunks_total [of _ "audio_path_name a fp" result tcs]
    by (simp add: length_transcript_chunks)
  ultimately show "\<exists>cs. audio_process a fp = Inr cs \<and> length cs = length tcs \<and> indexed_from_zero cs \<and>
            (\<forall>c \<in> set cs. map_of (metadata c) ''total_chunks'' = Some (PInt (int (length cs))))"
    by blast
next
  assume h: "pdf_process p fp = Some (Inr out)"
  let ?src = "pdf_path_name p fp"
  from h obtain pages where rp: "read_pages p fp = Inr pages"
    and pp: "pdf_pages (chunk_size p) (chunk_overlap p) ?src 0 pages = Some (Inr out)"
    by (auto simp: pdf_process_def split: sum.splits)
  from pdf_pages_groups [OF pp] obtain js tcss where
    len: "length js = length tcss" and srt: "sorted_wrt (<) js" and
    rng: "\<forall>j \<in> set js. 0 \<le> j \<and> j < 0 + length pages" and
    pg: "\<forall>(j, tcs) \<in> set (zip js tcss).
           \<exists>t. pages ! (j - 0) = Inr t \<and> strip t \<noteq> [] \<and>
               split_text (chunk_size p) (chunk_overlap p) t = Some tcs" and
    out: "out = concat (map2 (page_chunks ?src) js tcss)"
    by blast
  have "\<forall>(j, tcs) \<in> set (zip js tcss).
              indexed_from_zero (page_chunks ?src j tcs) \<and>
              length (page_chunks ?src j tcs) = length tcs \<and>
              (\<forall>c \<in> set (page_chunks ?src j tcs).
                  map_of (metadata c) ''page_number'' = Some (PInt (int j + 1))) \<and>
              j < length pages \<and>
              (\<exists>t. pages ! j = Inr t \<and> strip t \<noteq> [] \<and>
                   split_text (chunk_size p) (chunk_overlap p) t = Some tcs)"
  proof (clarify)
    fix j tcs assume m: "(j, tcs) \<in> set (zip js tcss)"
    then have "j \<in> set js" by (rule set_zip_leftD)
    with rng have "j < length pages" by simp
    moreover from pg m have "\<exists>t. pages ! j = Inr t \<and> strip t \<noteq> [] \<and>
                   split_text (chunk_size p) (chunk_overlap p) t = Some tcs" by auto
    moreover have "length (page_chunks ?src j tcs) = length tcs" by (simp add: page_chunks_def)
    ultimately show "indexed_from_zero (page_chunks ?src j tcs) \<and>
              length (page_chunks ?src j tcs) = length tcs \<and>
              (\<forall>c \<in> set (page_chunks ?src j tcs).
                  map_of (metadata c) ''page_number'' = Some (PInt (int j + 1))) \<and>
              j < length pages \<and>
              (\<exists>t. pages ! j = Inr t \<and> strip t \<noteq> [] \<and>
                   split_text (chunk_size p) (chunk_overlap p) t = Some tcs)"
      using page_chunks_indexed [of ?src j tcs] page_chunks_page_number [of _ ?src j tcs]
      by blast
  qed
  with rp len srt out show "\<exists>pages js tcss.
          read_pages p fp = Inr pages \<and> length js = length tcss \<and> sorted_wrt (<) js \<and>
          out = concat (map2 (page_chunks (pdf_path_name p fp)) js tcss) \<and>
          (\<forall>(j, tcs) \<in> set (zip js tcss).
              indexed_from_zero (page_chunks (pdf_path_name p fp) j tcs) \<and>
              length (page_chunks (pdf_path_name p fp) j tcs) = length tcs \<and>
              (\<forall>c \<in> set (page_chunks (pdf_path_name p fp) j tcs).
                  map_of (metadata c) ''page_number'' = Some (PInt (int j + 1))) \<and>
              j < length pages \<and>
              (\<exists>t. pages ! j = Inr t \<and> strip t \<noteq> [] \<and>
                   split_text (chunk_size p) (chunk_overlap p) t = Some tcs))"
    by blast
qed

text \<open>
  Claim C5, amended: when the transcript has text, the chunks of the audio extractor are
  as many as the splitter's pieces, their \<open>chunk_index\<close> values are 0, 1, ... in order and
  each \<open>total_chunks\<close> is their number. The chunks of the text-document extractor are the
  concatenation, in page order, of one group per page with text; within a group the
  \<open>chunk_index\<close> values are 0, 1, ... in order (they restart with every page), the group
  has one chunk per piece of the page's split, and each chunk carries the page's 1-based
  number. The two sentinel chunks of the audio extractor (no speech, error) carry neither
  \<open>chunk_index\<close> nor \<open>total_chunks\<close>, and every sequence the audio extractor returns is
  either indexed as above or one sentinel chunk.
\<close>

theorem chunk_indices_contiguous:
  "(transcribe a fp = Inr result \<and> result \<noteq> [] \<and> truthy (dict_get result ''text'') \<and>
    split_transcript a (dict_get result ''text'') = Inr tcs \<longrightarrow>
      (\<exists>cs. audio_process a fp = Inr cs \<and> length cs = length tcs \<and> indexed_from_zero cs \<and>
            (\<forall>c \<in> set cs. map_of (metadata c) ''total_chunks'' = Some (PInt (int (length cs)))))) \<and>
   (pdf_process p fp = Some (Inr out) \<longrightarrow>
      (\<exists>pages js tcss.
          read_pages p fp = Inr pages \<and> length js = length tcss \<and> sorted_wrt (<) js \<and>
          out = concat (map2 (page_chunks (pdf_path_name p fp)) js tcss) \<and>
          (\<forall>(j, tcs) \<in> set (zip js tcss).
              indexed_from_zero (page_chunks (pdf_path_name p fp) j tcs) \<and>
              length (page_chunks (pdf_path_name p fp) j tcs) = length tcs \<and>
              (\<forall>c \<in> set (page_chunks (pdf_path_name p fp) j tcs).
                  map_of (metadata c) ''page_number'' = Some (PInt (int j + 1))) \<and>
              j < length pages \<and>
              (\<exists>t. pages ! j = Inr t \<and> strip t \<noteq> [] \<and>
                   split_text (chunk_size p) (chunk_overlap p) t = Some tcs)))) \<and>
   (transcribe a fp = Inr result \<and> \<not> truthy (dict_get result ''text'') \<longrightarrow>
      audio_process a fp = Inr [no_speech_chunk (audio_path_name a fp)]) \<and>
   (transcribe a fp = Inl e \<longrightarrow> audio_process a fp = Inr [error_chunk (audio_path_name a fp) e]) \<and>
   (transcribe a fp = Inr result \<and> result \<noteq> [] \<and> truthy (dict_get result ''text'') \<and>
    split_transcript a (dict_get result ''text'') = Inl e \<longrightarrow>
      audio_process a fp = Inr [error_chunk (audio_path_name a fp) e]) \<and>
   map_of (metadata (no_speech_chunk src)) ''chunk_index'' = None \<and>
   map_of (metadata (no_speech_chunk src)) ''total_chunks'' = None \<and>
   map_of (metadata (error_chunk src e)) ''chunk_index'' = None \<and>
   map_of (metadata (error_chunk src e)) ''total_chunks'' = None \<and>
   (\<exists>cs. audio_process a fp = Inr cs \<and>
      ((indexed_from_zero cs \<and>
        (\<forall>c \<in> set cs. map_of (metadata c) ''total_chunks'' = Some (PInt (int (length cs))))) \<or>
       cs = [no_speech_chunk (audio_path_name a fp)] \<or>
       (\<exists>e'. cs = [error_chunk (audio_path_name a fp) e'])))"
proof -
  have s1: "transcribe a fp = Inr result \<and> \<not> truthy (dict_get result ''text'') \<longrightarrow>
      audio_process a fp = Inr [no_speech_chunk (audio_path_name a fp)]"
    by (simp add: audio_process_def audio_try_def)
  have s2: "transcribe a fp = Inl e \<longrightarrow> audio_process a fp = Inr [error_chunk (audio_path_name a fp) e]"
    by (simp add: audio_process_def audio_try_def)
  have s3: "transcribe a fp = Inr result \<and> result \<noteq> [] \<and> truthy (dict_get result ''text'') \<and>
    split_transcript a (dict_get result ''text'') = Inl e \<longrightarrow>
      audio_process a fp = Inr [error_chunk (audio_path_name a fp) e]"
    by (simp add: audio_process_def audio_try_def)
  have keys: "map_of (metadata (no_speech_chunk src)) ''chunk_index'' = None \<and>
   map_of (metadata (no_speech_chunk src)) ''total_chunks'' = None \<and>
   map_of (metadata (error_chunk src e)) ''chunk_index'' = None \<and>
   map_of (metadata (error_chunk src e)) ''total_chunks'' = None"
    by (simp add: no_speech_chunk_def error_chunk_def)
  have every: "\<exists>cs. audio_process a fp = Inr cs \<and>
      ((indexed_from_zero cs \<and>
        (\<forall>c \<in> set cs. map_of (metadata c) ''total_chunks'' = Some (PInt (int (length cs))))) \<or>
       cs = [no_speech_chunk (audio_path_name a fp)] \<or>
       (\<exists>e'. cs = [error_chunk (audio_path_name a fp) e']))"
  proof (cases "transcribe a fp")
    case (Inl e0)
    then have "audio_process a fp = Inr [error_chunk (audio_path_name a fp) e0]"
      by (simp add: audio_process_def audio_try_def)
    then show ?thesis by blast
  next
    case (Inr r)
    show ?thesis
    proof (cases "r = [] \<or> \<not> truthy (dict_get r ''text'')")
      case True
      with Inr have "audio_process a fp = Inr [no_speech_chunk (audio_path_name a fp)]"
        by (auto simp: audio_process_def audio_try_def)
      then show ?thesis by blast
    next
      case False
      show ?thesis
      proof (cases "split_transcript a (dict_get r ''text'')")
        case (Inl e0)
        with Inr False have "audio_process a fp = Inr [error_chunk (audio_path_name a fp) e0]"
          by (simp add: audio_process_def audio_try_def)
        then show ?thesis by blast
      next
        case pieces: (Inr tcs0)
        let ?cs = "transcript_chunks (audio_path_name a fp) r tcs0"
        from Inr False pieces have "audio_process a fp = Inr ?cs"
          by (simp add: audio_process_def audio_try_def)
        moreover have "indexed_from_zero ?cs" by (rule transcript_chunks_indexed)
        moreover have "\<forall>c \<in> set ?cs.
            map_of (metadata c) ''total_chunks'' = Some (PInt (int (length ?cs)))"
          using transcript_chunks_total [of _ "audio_path_name a fp" r tcs0]
          by (simp add: length_transcript_chunks)
        ultimately show ?thesis by blast
      qed
    qed
  qed
  from positions_on_regular_paths [of a fp result tcs p out] s1 s2 s3 keys every
  show ?thesis by blast
qed

theorem chunk_indices_contiguous_witness:
  "audio_process (sample_audio (Inr [(''text'', PStr ''spoken words''), (''language'', PStr ''fr'')]))
       ''in/exhibit''
     = Inr [\<lparr>content = ''first part'',
             metadata = [(''document_type'', PStr ''audio''), (''chunk_index'', PInt 0),
                         (''total_chunks'', PInt 2), (''source_file'', PStr ''hearing.wav''),
                         (''language'', PStr ''fr'')]\<rparr>,
            \<lparr>content = ''second part'',
             metadata = [(''document_type'', PStr ''audio''), (''chunk_index'', PInt 1),
                         (''total_chunks'', PInt 2), (''source_file'', PStr ''hearing.wav''),
                         (''language'', PStr ''fr'')]\<rparr>] \<and>
   pdf_process (sample_pdf (Inr [Inr ''First page'', Inr ''  '', Inr ''Third page''])) ''in/exhibit''
     = Some (Inr [\<lparr>content = ''First page'',
                   metadata = [(''document_type'', PStr ''pdf''), (''page_number'', PInt 1),
                               (''chunk_index'', PInt 0), (''source_file'', PStr ''contract.pdf''),
                               (''language'', PStr ''en'')]\<rparr>,
                  \<lparr>content = ''Third page'',
                   metadata = [(''document_type'', PStr ''pdf''), (''page_number'', PInt 3),
                               (''chunk_index'', PInt 0), (''source_file'', PStr ''contract.pdf''),
                               (''language'', PStr ''en'')]\<rparr>]) \<and>
   audio_process (sample_audio (Inr [(''text'', PStr []), (''language'', PStr ''fr'')])) ''in/exhibit''
     = Inr [\<lparr>content = ''[Audio content detected]'',
             metadata = [(''document_type'', PStr ''audio''),
                         (''source_file'', PStr ''hearing.wav''),
                         (''language'', PStr ''en''),
                         (''status'', PStr ''no_speech_detected'')]\<rparr>] \<and>
   audio_process (sample_audio (Inl ''file is damaged'')) ''in/exhibit''
     = Inr [\<lparr>content = ''[Error processing audio: file is damaged]'',
             metadata = [(''document_type'', PStr ''audio''),
                         (''source_file'', PStr ''hearing.wav''),
                         (''status'', PStr ''error''),
                         (''error'', PStr ''file is damaged'')]\<rparr>]"
proof -
  have s1: "split_text 1000 200 ''First page'' = Some [''First page'']"
    unfolding split_text_def
    by (simp add: split_loop.simps window_def py_slice_def adjust_index_def)
  have s3: "split_text 1000 200 ''Third page'' = Some [''Third page'']"
    unfolding split_text_def
    by (simp add: split_loop.simps window_def py_slice_def adjust_index_def)
  show ?thesis
    using chunk_indices_contiguous
            [where a = "sample_audio (Inr [(''text'', PStr ''spoken words''), (''language'', PStr ''fr'')])"
               and fp = "''in/exhibit''"
               and result = "[(''text'', PStr ''spoken words''), (''language'', PStr ''fr'')]"
               and tcs = "['' first part '', ''second part'']"
               and p = "sample_pdf (Inr [Inr ''First page'', Inr ''  '', Inr ''Third page''])"
               and out = "[\<lparr>content = ''First page'',
                   metadata = [(''document_type'', PStr ''pdf''), (''page_number'', PInt 1),
                               (''chunk_index'', PInt 0), (''source_file'', PStr ''contract.pdf''),
                               (''language'', PStr ''en'')]\<rparr>,
                  \<lparr>content = ''Third page'',
                   metadata = [(''document_type'', PStr ''pdf''), (''page_number'', PInt 3),
                               (''chunk_index'', PInt 0), (''source_file'', PStr ''contract.pdf''),
                               (''language'', PStr ''en'')]\<rparr>]"]
          chunk_indices_contiguous
            [where a = "sample_audio (Inr [(''text'', PStr []), (''language'', PStr ''fr'')])"
               and fp = "''in/exhibit''"
               and result = "[(''text'', PStr []), (''language'', PStr ''fr'')]"]
          chunk_indices_contiguous
            [where a = "sample_audio (Inl ''file is damaged'')" and fp = "''in/exhibit''"
               and e = "''file is damaged''"]
    by (simp add: audio_process_def audio_try_def sample_audio_def transcript_chunks_def
          no_speech_chunk_def error_chunk_def
          dict_get_def dict_get_default_def strip_def is_space_def
          pdf_process_def sample_pdf_def default_chunk_size_def default_chunk_overlap_def
          s1 s3 page_chunks_def detect_language_def)
qed

section \<open>Properties of the vector index\<close>

subsection \<open>Failures of the backing store and of building results\<close>

lemma search_results_refused:
  "\<exists>d \<in> set ds. \<forall>s. dict_get_default (snd (fst d)) ''id'' (PStr []) \<noteq> PStr s \<Longrightarrow>
     \<exists>e. search_results ds = Inl e"
proof (induction ds)
  case Nil
  then show ?case by simp
next
  case (Cons d ds)
  show ?case
  proof (cases "to_search_result d")
    case (Inl e)
    then show ?thesis by simp
  next
    case (Inr r)
    then have "\<exists>s. dict_get_default (snd (fst d)) ''id'' (PStr []) = PStr s"
      by (cases d) (auto simp: to_search_result_def validate_str_def split: pyval.splits prod.splits)
    with Cons.prems have "\<exists>d \<in> set ds. \<forall>s. dict_get_default (snd (fst d)) ''id'' (PStr []) \<noteq> PStr s"
      by auto
    from Cons.IH [OF this] Inr show ?thesis by auto
  qed
qed

lemma search_results_built:
  "\<forall>d \<in> set ds. \<exists>s. dict_get_default (snd (fst d)) ''id'' (PStr []) = PStr s \<Longrightarrow>
     \<exists>rs. search_results ds = Inr rs \<and>
          map sr_content rs = map (\<lambda>d. fst (fst d)) ds \<and>
          map sr_score rs = map snd ds \<and>
          map (\<lambda>r. PStr (sr_id r)) rs = map (\<lambda>d. dict_get_default (snd (fst d)) ''id'' (PStr [])) ds"
proof (induction ds)
  case Nil
  then show ?case by simp
next
  case (Cons d ds)
  then obtain rs where rs: "search_results ds = Inr rs"
      "map sr_content rs = map (\<lambda>d. fst (fst d)) ds" "map sr_score rs = map snd ds"
      "map (\<lambda>r. PStr (sr_id r)) rs = map (\<lambda>d. dict_get_default (snd (fst d)) ''id'' (PStr [])) ds"
    by auto
  from Cons.prems obtain s where "dict_get_default (snd (fst d)) ''id'' (PStr []) = PStr s" by auto
  then obtain r where "to_search_result d = Inr r" "sr_content r = fst (fst d)" "sr_score r = snd d"
      "sr_id r = s"
    by (cases d) (auto simp: to_search_result_def validate_str_def)
  with rs \<open>dict_get_default (snd (fst d)) ''id'' (PStr []) = PStr s\<close> show ?case by simp
qed

text \<open>
  Claim C3: \<open>search\<close> always returns a list, and the empty one whenever the backing store
  fails or a result cannot be built from a returned document; when every result can be
  built it returns them in the store's order. A failure of the backing store during
  \<open>add_document\<close>, \<open>batch_add_documents\<close> or \<open>delete_document\<close> reaches the caller as that
  error; \<open>get_document\<close> never raises and returns nothing when the store holds no document
  under the id.
\<close>

theorem store_error_policy:
  "(\<exists>rs. search vs q dt k = Inr rs) \<and>
   (vs_search vs q k (search_filter dt) = Inl e \<longrightarrow> search vs q dt k = Inr []) \<and>
   (vs_search vs q k (search_filter dt) = Inr ds \<and>
    (\<exists>d \<in> set ds. \<forall>s. dict_get_default (snd (fst d)) ''id'' (PStr []) \<noteq> PStr s) \<longrightarrow>
      search vs q dt k = Inr []) \<and>
   (vs_search vs q k (search_filter dt) = Inr ds \<and>
    (\<forall>d \<in> set ds. \<exists>s. dict_get_default (snd (fst d)) ''id'' (PStr []) = PStr s) \<longrightarrow>
      (\<exists>rs. search vs q dt k = Inr rs \<and>
            map sr_content rs = map (\<lambda>d. fst (fst d)) ds \<and>
            map sr_score rs = map snd ds \<and>
            map (\<lambda>r. PStr (sr_id r)) rs
              = map (\<lambda>d. dict_get_default (snd (fst d)) ''id'' (PStr [])) ds)) \<and>
   (vs_add_texts vs [content c] [stored_metadata c] = Inl e \<longrightarrow> add_document vs c = Inl e) \<and>
   (vs_add_texts vs (fst (batch_args cs)) (snd (batch_args cs)) = Inl e \<longrightarrow>
      batch_add_documents vs cs = Inl e) \<and>
   (vs_delete vs [i] = Inl e \<longrightarrow> delete_document vs i = Inl e) \<and>
   (\<exists>r. get_document vs i = Inr r) \<and>
   (vs_get vs [i] = Inr ([], mds) \<longrightarrow> get_document vs i = Inr None)"
proof -
  have s0: "\<exists>rs. search vs q dt k = Inr rs"
    by (simp add: search_def split: sum.splits)
  have s1: "vs_search vs q k (search_filter dt) = Inl e \<longrightarrow> search vs q dt k = Inr []"
    by (simp add: search_def)
  have s2: "vs_search vs q k (search_filter dt) = Inr ds \<and>
    (\<exists>d \<in> set ds. \<forall>s. dict_get_default (snd (fst d)) ''id'' (PStr []) \<noteq> PStr s) \<longrightarrow>
      search vs q dt k = Inr []"
  proof
    assume h: "vs_search vs q k (search_filter dt) = Inr ds \<and>
      (\<exists>d \<in> set ds. \<forall>s. dict_get_default (snd (fst d)) ''id'' (PStr []) \<noteq> PStr s)"
    then obtain e' where "search_results ds = Inl e'"
      using search_results_refused [of ds] by blast
    with h show "search vs q dt k = Inr []" by (simp add: search_def)
  qed
  have s3: "vs_search vs q k (search_filter dt) = Inr ds \<and>
    (\<forall>d \<in> set ds. \<exists>s. dict_get_default (snd (fst d)) ''id'' (PStr []) = PStr s) \<longrightarrow>
      (\<exists>rs. search vs q dt k = Inr rs \<and>
            map sr_content rs = map (\<lambda>d. fst (fst d)) ds \<and>
            map sr_score rs = map snd ds \<and>
            map (\<lambda>r. PStr (sr_id r)) rs
              = map (\<lambda>d. dict_get_default (snd (fst d)) ''id'' (PStr [])) ds)"
  proof
    assume h: "vs_search vs q k (search_filter dt) = Inr ds \<and>
      (\<forall>d \<in> set ds. \<exists>s. dict_get_default (snd (fst d)) ''id'' (PStr []) = PStr s)"
    then obtain rs where "search_results ds = Inr rs"
        "map sr_content rs = map (\<lambda>d. fst (fst d)) ds" "map sr_score rs = map snd ds"
        "map (\<lambda>r. PStr (sr_id r)) rs
           = map (\<lambda>d. dict_get_default (snd (fst d)) ''id'' (PStr [])) ds"
      using search_results_built [of ds] by blast
    with h show "\<exists>rs. search vs q dt k = Inr rs \<and>
            map sr_content rs = map (\<lambda>d. fst (fst d)) ds \<and>
            map sr_score rs = map snd ds \<and>
            map (\<lambda>r. PStr (sr_id r)) rs
              = map (\<lambda>d. dict_get_default (snd (fst d)) ''id'' (PStr [])) ds"
      by (simp add: search_def)
  qed
  have rest: "(vs_add_texts vs [content c] [stored_metadata c] = Inl e \<longrightarrow> add_document vs c = Inl e) \<and>
   (vs_add_texts vs (fst (batch_args cs)) (snd (batch_args cs)) = Inl e \<longrightarrow>
      batch_add_documents vs cs = Inl e) \<and>
   (vs_delete vs [i] = Inl e \<longrightarrow> delete_document vs i = Inl e) \<and>
   (\<exists>r. get_document vs i = Inr r) \<and>
   (vs_get vs [i] = Inr ([], mds) \<longrightarrow> get_document vs i = Inr None)"
    by (auto simp: add_document_def add_document_args_def add_texts_def
        batch_add_documents_def delete_document_def get_document_def
        split: sum.splits prod.splits list.splits)
  from s0 s1 s2 s3 rest show ?thesis by blast
qed

theorem store_error_policy_witness:
  "search failing_store ''lease term'' None 5 = Inr [] \<and>
   search (answering_store (PStr ''doc-1'', PInt 2)) ''lease term'' None 5 = Inr [] \<and>
   search (answering_store (PStr ''doc-1'', PStr ''doc-2'')) ''lease term'' None 5
     = Inr [\<lparr>sr_id = ''doc-1'', sr_content = ''The lessee shall pay rent.'', sr_score = 0,
             sr_metadata = [(''document_type'', PStr ''pdf''), (''page_number'', PNone),
                            (''source_file'', PNone), (''language'', PNone)]\<rparr>,
            \<lparr>sr_id = ''doc-2'', sr_content = ''The lessor shall repair the roof.'', sr_score = 1,
             sr_metadata = [(''document_type'', PStr ''pdf''), (''page_number'', PNone),
                            (''source_file'', PNone), (''language'', PNone)]\<rparr>] \<and>
   add_document failing_store \<lparr>content = ''The lessee shall pay rent.'', metadata = []\<rparr>
     = Inl ''store unavailable'' \<and>
   batch_add_documents failing_store [\<lparr>content = ''The lessee shall pay rent.'', metadata = []\<rparr>]
     = Inl ''store unavailable'' \<and>
   delete_document failing_store ''doc-1'' = Inl ''store unavailable'' \<and>
   get_document failing_store ''doc-1'' = Inr None"
  using store_error_policy [of failing_store "''lease term''" None 5 "''store unavailable''" "[]"
      "\<lparr>content = ''The lessee shall pay rent.'', metadata = []\<rparr>"
      "[\<lparr>content = ''The lessee shall pay rent.'', metadata = []\<rparr>]" "''doc-1''" "[]"]
    store_error_policy [where vs = "answering_store (PStr ''doc-1'', PInt 2)" and q = "''lease term''"
      and dt = None and k = 5
      and ds = "[((''The lessee shall pay rent.'',
                [(''id'', PStr ''doc-1''), (''document_type'', PStr ''pdf'')]), 0),
              ((''The lessor shall repair the roof.'',
                [(''id'', PInt 2), (''document_type'', PStr ''pdf'')]), 1)]"]
    store_error_policy [where vs = "answering_store (PStr ''doc-1'', PStr ''doc-2'')" and q = "''lease term''"
      and dt = None and k = 5
      and ds = "[((''The lessee shall pay rent.'',
                [(''id'', PStr ''doc-1''), (''document_type'', PStr ''pdf'')]), 0),
              ((''The lessor shall repair the roof.'',
                [(''id'', PStr ''doc-2''), (''document_type'', PStr ''pdf'')]), 1)]"]
  by (simp add: failing_store_def answering_store_def search_def to_search_result_def
        validate_str_def dict_get_def dict_get_default_def)

subsection \<open>What insertion persists\<close>









end
